theory Spec2Isabelle
  imports Main "HOL-Library.Word"
begin

section \<open>Go values shared by the two packages\<close>

text \<open>
  Go's \<open>int\<close> is a 64-bit two's complement integer on 64-bit platforms, which the
  model takes: \<open>+\<close> and \<open>-\<close> wrap around, comparisons are signed (\<open>\<le>s\<close>, \<open><s\<close> on words, read
  through \<open>sint\<close>). A Go string is a sequence of bytes, here a \<open>string\<close> (a list of
  \<open>char\<close>); \<open>len\<close> counts bytes and returns an \<open>int\<close>. Every string and slice a Go
  program can hold has fewer than \<open>2 ^ 63\<close> elements, so \<open>len\<close> never wraps on a real
  value; theorems that read \<open>len\<close> as a number carry that bound as a hypothesis.
\<close>

type_synonym go_int = "64 word"

definition len :: "'a list \<Rightarrow> go_int" where
  "len xs = of_nat (length xs)"

text \<open>
  The run-time panics the modelled code can raise: a slice expression or an index
  expression out of range, and \<open>strings.Repeat\<close> with a negative count.
\<close>

datatype panic = SliceBoundsOutOfRange | IndexOutOfRange | NegativeRepeatCount

definition bind_panic :: "panic + 'a \<Rightarrow> ('a \<Rightarrow> panic + 'b) \<Rightarrow> panic + 'b" where
  "bind_panic r f = (case r of Inl e \<Rightarrow> Inl e | Inr x \<Rightarrow> f x)"

text \<open>
  \<open>s[lo:hi]\<close> panics unless \<open>0 \<le> lo \<le> hi \<le> len(s)\<close>; \<open>s[:hi]\<close> is \<open>s[0:hi]\<close> and
  \<open>s[lo:]\<close> is \<open>s[lo:len(s)]\<close>. \<open>s[i]\<close> panics unless \<open>0 \<le> i < len(s)\<close>.
\<close>

definition slice :: "'a list \<Rightarrow> go_int \<Rightarrow> go_int \<Rightarrow> panic + 'a list" where
  "slice s lo hi =
     (if 0 \<le>s lo \<and> lo \<le>s hi \<and> hi \<le>s len s
      then Inr (take (unat hi - unat lo) (drop (unat lo) s))
      else Inl SliceBoundsOutOfRange)"

definition slice_to :: "'a list \<Rightarrow> go_int \<Rightarrow> panic + 'a list" where
  "slice_to s hi = slice s 0 hi"

definition slice_from :: "'a list \<Rightarrow> go_int \<Rightarrow> panic + 'a list" where
  "slice_from s lo = slice s lo (len s)"

definition index :: "'a list \<Rightarrow> go_int \<Rightarrow> panic + 'a" where
  "index s i = (if 0 \<le>s i \<and> i <s len s then Inr (s ! unat i) else Inl IndexOutOfRange)"

text \<open>
  The conversion \<open>string(b)\<close> of a byte \<open>b\<close> yields the UTF-8 encoding of the code point
  \<open>b\<close>: one byte below 128, two bytes from 128 to 255.
\<close>

definition string_of_byte :: "char \<Rightarrow> string" where
  "string_of_byte c =
     (let n = (of_char c :: nat)
      in if n < 128 then [c] else [char_of (192 + n div 64), char_of (128 + n mod 64)])"


section \<open>Package input: the text field\<close>

record input_Model =
  Prompt :: string
  Value :: string
  Cursor :: string
  HiddenCursor :: string
  BlinkSpeed :: go_int
  blink :: bool
  pos :: go_int

definition DefaultModel :: input_Model where
  "DefaultModel =
     \<lparr>Prompt = ''> '', Value = '''', Cursor = '''', HiddenCursor = '''',
      BlinkSpeed = 600000000, blink = False, pos = 0\<rparr>"

text \<open>
  The messages \<open>Update\<close> receives. \<open>tea.KeyMsg\<close> belongs to the host library: a key
  message is its \<open>Type\<close> together with the string its \<open>String()\<close> method returns (for
  \<open>KeyRune\<close>, the UTF-8 encoding of the rune typed). \<open>KeyOther\<close> stands for every key type
  \<open>Update\<close> has no case for, \<open>OtherMsg\<close> for every message of another type.
\<close>

datatype KeyType =
  KeyBackspace | KeyDelete | KeyLeft | KeyRight | KeyCtrlA | KeyCtrlD | KeyCtrlE | KeyCtrlK
  | KeyRune | KeyOther

datatype Msg = KeyMsg KeyType string | CursorBlinkMsg | OtherMsg

text \<open>
  \<open>Update\<close> returns the new model and a command that is \<open>nil\<close> on every path; the model
  keeps the first component, or the panic the body raises. \<open>KeyBackspace\<close> falls through
  to the body of \<open>KeyDelete\<close>.
\<close>

definition delete_before :: "input_Model \<Rightarrow> panic + input_Model" where
  "delete_before m =
     (if 0 <s len (Value m)
      then bind_panic (slice_to (Value m) (pos m - 1)) (\<lambda>a.
           bind_panic (slice_from (Value m) (pos m)) (\<lambda>b.
           Inr (m\<lparr>Value := a @ b, pos := pos m - 1\<rparr>)))
      else Inr m)"

fun input_Update :: "Msg \<Rightarrow> input_Model \<Rightarrow> panic + input_Model" where
  "input_Update (KeyMsg KeyBackspace str) m = delete_before m"
| "input_Update (KeyMsg KeyDelete str) m = delete_before m"
| "input_Update (KeyMsg KeyLeft str) m =
     Inr (if 0 <s pos m then m\<lparr>pos := pos m - 1\<rparr> else m)"
| "input_Update (KeyMsg KeyRight str) m =
     Inr (if pos m <s len (Value m) then m\<lparr>pos := pos m + 1\<rparr> else m)"
| "input_Update (KeyMsg KeyCtrlA str) m = Inr (m\<lparr>pos := 0\<rparr>)"
| "input_Update (KeyMsg KeyCtrlD str) m =
     (if 0 <s len (Value m) \<and> pos m <s len (Value m)
      then bind_panic (slice_to (Value m) (pos m)) (\<lambda>a.
           bind_panic (slice_from (Value m) (pos m + 1)) (\<lambda>b.
           Inr (m\<lparr>Value := a @ b\<rparr>)))
      else Inr m)"
| "input_Update (KeyMsg KeyCtrlE str) m = Inr (m\<lparr>pos := len (Value m) - 1\<rparr>)"
| "input_Update (KeyMsg KeyCtrlK str) m =
     bind_panic (slice_to (Value m) (pos m)) (\<lambda>a.
     Inr (m\<lparr>Value := a, pos := len a\<rparr>))"
| "input_Update (KeyMsg KeyRune str) m =
     bind_panic (slice_to (Value m) (pos m)) (\<lambda>a.
     bind_panic (slice_from (Value m) (pos m)) (\<lambda>b.
     Inr (m\<lparr>Value := a @ str @ b, pos := pos m + 1\<rparr>)))"
| "input_Update (KeyMsg KeyOther str) m = Inr m"
| "input_Update CursorBlinkMsg m = Inr (m\<lparr>blink := \<not> blink m\<rparr>)"
| "input_Update OtherMsg m = Inr m"

text \<open>
  \<open>View\<close> takes a \<open>tea.Model\<close>, an empty interface: the assertion \<open>m, _ := model.(Model)\<close>
  yields the zero \<open>Model\<close> when the value is of another type. \<open>tea.Invert\<close> belongs to the
  host library and is a parameter.
\<close>

datatype tea_Model = InputModel input_Model | ForeignModel

definition zero_Model :: input_Model where
  "zero_Model =
     \<lparr>Prompt = '''', Value = '''', Cursor = '''', HiddenCursor = '''',
      BlinkSpeed = 0, blink = False, pos = 0\<rparr>"

definition cursor :: "(string \<Rightarrow> string) \<Rightarrow> string \<Rightarrow> bool \<Rightarrow> string" where
  "cursor Invert s blnk = (if blnk then s else Invert s)"

definition input_View :: "(string \<Rightarrow> string) \<Rightarrow> tea_Model \<Rightarrow> panic + string" where
  "input_View Invert model =
     (let m = (case model of InputModel x \<Rightarrow> x | ForeignModel \<Rightarrow> zero_Model)
      in bind_panic (slice_to (Value m) (pos m)) (\<lambda>v.
         if pos m <s len (Value m)
         then bind_panic (index (Value m) (pos m)) (\<lambda>c.
              bind_panic (slice_from (Value m) (pos m + 1)) (\<lambda>rest.
              Inr (Prompt m @ (v @ cursor Invert (string_of_byte c) (blink m)) @ rest)))
         else Inr (Prompt m @ v @ cursor Invert '' '' (blink m))))"

text \<open>The caret invariant of the data model, \<open>0 \<le> caret \<le> len(value)\<close>, over the integers.\<close>

definition caret_ok :: "input_Model \<Rightarrow> bool" where
  "caret_ok m = (0 \<le> sint (pos m) \<and> sint (pos m) \<le> int (length (Value m)))"


section \<open>Package viewport: the scroll view\<close>

text \<open>
  \<open>Err\<close> is an \<open>error\<close> interface value: \<open>None\<close> for \<open>nil\<close>, otherwise the message its
  \<open>Error()\<close> method returns. \<open>lines\<close> is a slice of strings.
\<close>

record viewport_Model =
  Err :: "string option"
  Width :: go_int
  Height :: go_int
  YOffset :: go_int
  YPosition :: go_int
  HighPerformanceRendering :: bool
  lines :: "string list"

definition NewModel :: "go_int \<Rightarrow> go_int \<Rightarrow> viewport_Model" where
  "NewModel width height =
     \<lparr>Err = None, Width = width, Height = height, YOffset = 0, YPosition = 0,
      HighPerformanceRendering = False, lines = []\<rparr>"

text \<open>
  A method with a pointer receiver (\<open>func (m *Model) ...\<close>) updates the caller's model:
  it is a function from the model to the updated model. \<open>SetSize\<close> is declared with a
  value receiver (\<open>func (m Model) SetSize\<close>) and returns nothing: its three assignments
  update the copy the call made of the receiver (\<open>SetSize_copy\<close>), and the copy is dropped
  when the method returns. \<open>SetSize\<close> is the caller's model after the call.
\<close>

definition SetSize_copy :: "viewport_Model \<Rightarrow> go_int \<Rightarrow> go_int \<Rightarrow> go_int \<Rightarrow> viewport_Model" where
  "SetSize_copy m yPos width height = m\<lparr>YPosition := yPos, Width := width, Height := height\<rparr>"

definition SetSize :: "viewport_Model \<Rightarrow> go_int \<Rightarrow> go_int \<Rightarrow> go_int \<Rightarrow> viewport_Model" where
  "SetSize m yPos width height = (let copy = SetSize_copy m yPos width height in m)"

definition AtTop :: "viewport_Model \<Rightarrow> bool" where
  "AtTop m = (YOffset m \<le>s 0)"

definition AtBottom :: "viewport_Model \<Rightarrow> bool" where
  "AtBottom m = (len (lines m) - Height m - 1 \<le>s YOffset m)"

definition min_go :: "go_int \<Rightarrow> go_int \<Rightarrow> go_int" where
  "min_go a b = (if a <s b then a else b)"

definition max_go :: "go_int \<Rightarrow> go_int \<Rightarrow> go_int" where
  "max_go a b = (if b <s a then a else b)"

definition ViewDown :: "viewport_Model \<Rightarrow> viewport_Model" where
  "ViewDown m =
     (if AtBottom m then m
      else m\<lparr>YOffset := min_go (YOffset m + Height m) (len (lines m) - Height m)\<rparr>)"

definition ViewUp :: "viewport_Model \<Rightarrow> viewport_Model" where
  "ViewUp m =
     (if AtTop m then m
      else m\<lparr>YOffset := max_go (YOffset m - Height m) 0\<rparr>)"

subsection \<open>The functions of package strings the viewport calls\<close>

abbreviation CR :: char where "CR \<equiv> CHR 0x0D"
abbreviation LF :: char where "LF \<equiv> CHR 0x0A"

text \<open>
  \<open>strings.Index(s, substr)\<close> is the index of the first instance of \<open>substr\<close> in \<open>s\<close>,
  \<open>None\<close> where Go returns \<open>-1\<close>.
\<close>

fun strings_Index :: "string \<Rightarrow> string \<Rightarrow> nat option" where
  "strings_Index [] substr = (if substr = [] then Some 0 else None)"
| "strings_Index (c # cs) substr =
     (if take (length substr) (c # cs) = substr then Some 0
      else map_option Suc (strings_Index cs substr))"

lemma strings_Index_bound:
  "strings_Index s substr = Some j \<Longrightarrow> j + length substr \<le> length s"
proof (induction s arbitrary: j)
  case Nil
  then show ?case by (simp split: if_splits)
next
  case (Cons c cs)
  show ?case
  proof (cases "take (length substr) (c # cs) = substr")
    case True
    then have "length substr = length (take (length substr) (c # cs))"
      by simp
    also have "\<dots> \<le> length (c # cs)"
      by (simp only: length_take min.cobounded2)
    finally have "length substr \<le> length (c # cs)" .
    with True Cons.prems show ?thesis by simp
  next
    case False
    with Cons.prems obtain i where "strings_Index cs substr = Some i" and "j = Suc i"
      by auto
    with Cons.IH show ?thesis by simp
  qed
qed

text \<open>
  \<open>strings.Replace(s, old, new, n)\<close> with \<open>n < 0\<close>, as \<open>SetContent\<close> calls it: every
  non-overlapping instance of \<open>old\<close>, found from the left, is replaced by \<open>new\<close>.
  \<open>strings.Split(s, sep)\<close> cuts \<open>s\<close> at every instance of \<open>sep\<close>, found from the left,
  and returns the pieces between them; without an instance the result is the one piece
  \<open>s\<close>. Both follow the loops of the library, which search the rest of the string with
  \<open>Index\<close> and go on behind the instance found. The models cover a non-empty \<open>old\<close> and
  \<open>sep\<close>, which is what the viewport passes; for the empty pattern the library works on
  UTF-8 sequences, which is not modelled (the argument is returned as it is).
\<close>

function strings_Replace :: "string \<Rightarrow> string \<Rightarrow> string \<Rightarrow> string" where
  "strings_Replace s old new =
     (if old = [] then s
      else case strings_Index s old of
             None \<Rightarrow> s
           | Some j \<Rightarrow> take j s @ new @ strings_Replace (drop (j + length old) s) old new)"
  by pat_completeness auto
termination
proof (relation "measure (\<lambda>(s, old, new). length s)")
  show "wf (measure (\<lambda>(s, old, new). length s))" by simp
next
  fix s old new :: string and j
  assume "old \<noteq> []" and "strings_Index s old = Some j"
  then have "j + length old \<le> length s" and "0 < length old"
    by (simp_all add: strings_Index_bound)
  then have "length (drop (j + length old) s) < length s"
    unfolding length_drop by linarith
  then show "((drop (j + length old) s, old, new), (s, old, new))
             \<in> measure (\<lambda>(s, old, new). length s)"
    by simp
qed

function strings_Split :: "string \<Rightarrow> string \<Rightarrow> string list" where
  "strings_Split s sep =
     (if sep = [] then [s]
      else case strings_Index s sep of
             None \<Rightarrow> [s]
           | Some j \<Rightarrow> take j s # strings_Split (drop (j + length sep) s) sep)"
  by pat_completeness auto
termination
proof (relation "measure (\<lambda>(s, sep). length s)")
  show "wf (measure (\<lambda>(s, sep). length s))" by simp
next
  fix s sep :: string and j
  assume "sep \<noteq> []" and "strings_Index s sep = Some j"
  then have "j + length sep \<le> length s" and "0 < length sep"
    by (simp_all add: strings_Index_bound)
  then have "length (drop (j + length sep) s) < length s"
    unfolding length_drop by linarith
  then show "((drop (j + length sep) s, sep), (s, sep)) \<in> measure (\<lambda>(s, sep). length s)"
    by simp
qed

declare strings_Replace.simps [simp del]
declare strings_Split.simps [simp del]

text \<open>
  \<open>strings.Repeat(s, count)\<close> panics on a negative count (and where \<open>len(s) * count\<close>
  overflows, which the one-byte string the viewport passes cannot cause).
  \<open>strings.Join(elems, sep)\<close> concatenates the elements with \<open>sep\<close> between them.
\<close>

definition strings_Repeat :: "string \<Rightarrow> go_int \<Rightarrow> panic + string" where
  "strings_Repeat s count =
     (if count <s 0 then Inl NegativeRepeatCount else Inr (concat (replicate (unat count) s)))"

fun strings_Join :: "string list \<Rightarrow> string \<Rightarrow> string" where
  "strings_Join [] sep = []"
| "strings_Join [x] sep = x"
| "strings_Join (x # y # ys) sep = x @ sep @ strings_Join (y # ys) sep"

subsection \<open>Content and rendering\<close>

definition SetContent :: "viewport_Model \<Rightarrow> string \<Rightarrow> viewport_Model" where
  "SetContent m s = m\<lparr>lines := strings_Split (strings_Replace s [CR, LF] [LF]) [LF]\<rparr>"

text \<open>
  \<open>View\<close> of the viewport. The slice expression \<open>m.lines[top:bottom]\<close> is checked against
  the capacity of \<open>m.lines\<close>; \<open>bottom\<close> is at most \<open>len(m.lines)\<close>, so the check against the
  length decides the same.
\<close>

definition viewport_View :: "viewport_Model \<Rightarrow> panic + string" where
  "viewport_View m =
     (if HighPerformanceRendering m then strings_Repeat [LF] (Height m - 1)
      else case Err m of
        Some msg \<Rightarrow> Inr msg
      | None \<Rightarrow>
          bind_panic
            (if 0 <s len (lines m)
             then slice (lines m) (max_go 0 (YOffset m))
                    (min_go (len (lines m)) (YOffset m + Height m))
             else Inr [])
            (\<lambda>ls.
          bind_panic
            (if len ls <s Height m then strings_Repeat [LF] (Height m - len ls) else Inr [])
            (\<lambda>extraLines.
          Inr (strings_Join ls [LF] @ extraLines))))"

subsection \<open>The properties as the specification words them\<close>

text \<open>
  The offset invariant of the data model, \<open>0 \<le> offset \<le> max(0, len(lines) - height)\<close>,
  over the integers.
\<close>

definition offset_ok :: "viewport_Model \<Rightarrow> bool" where
  "offset_ok m =
     (0 \<le> sint (YOffset m)
      \<and> sint (YOffset m) \<le> max 0 (int (length (lines m)) - sint (Height m)))"

text \<open>
  Normalising line endings, CRLF to LF, and splitting a text at its newlines, by
  recursion over the text: \<open>split_lines_from cur s\<close> holds the line begun in \<open>cur\<close>.
\<close>

fun crlf_to_lf :: "string \<Rightarrow> string" where
  "crlf_to_lf (c # d # cs) =
     (if c = CR \<and> d = LF then LF # crlf_to_lf cs else c # crlf_to_lf (d # cs))"
| "crlf_to_lf cs = cs"

fun split_lines_from :: "string \<Rightarrow> string \<Rightarrow> string list" where
  "split_lines_from cur [] = [cur]"
| "split_lines_from cur (c # cs) =
     (if c = LF then cur # split_lines_from [] cs else split_lines_from (cur @ [c]) cs)"

definition split_lines :: "string \<Rightarrow> string list" where
  "split_lines s = split_lines_from [] s"


subsection \<open>States used as examples\<close>

text \<open>
  A text field holding \<open>ab\<close> with the caret at 0, and one holding \<open>abc\<close> with the caret
  at 1. Viewports of height 10: over 25 lines at the last page (offset 15) and at the
  top, over 30 lines at offsets 15 and 5; a viewport of height 5 over a single line; two
  viewports whose height is \<open>-1\<close>; a viewport that stores an error, with and without
  high performance rendering.
\<close>

abbreviation field_ab :: input_Model where
  "field_ab \<equiv>
     \<lparr>Prompt = ''> '', Value = ''ab'', Cursor = '''', HiddenCursor = '''',
      BlinkSpeed = 600000000, blink = False, pos = 0\<rparr>"

abbreviation field_abc :: input_Model where
  "field_abc \<equiv>
     \<lparr>Prompt = ''> '', Value = ''abc'', Cursor = '''', HiddenCursor = '''',
      BlinkSpeed = 600000000, blink = False, pos = 1\<rparr>"

abbreviation page_of :: "go_int \<Rightarrow> go_int \<Rightarrow> string list \<Rightarrow> viewport_Model" where
  "page_of height offset ls \<equiv>
     \<lparr>Err = None, Width = 80, Height = height, YOffset = offset, YPosition = 0,
      HighPerformanceRendering = False, lines = ls\<rparr>"

abbreviation failed_load :: "bool \<Rightarrow> viewport_Model" where
  "failed_load hpr \<equiv>
     \<lparr>Err = Some ''boom'', Width = 80, Height = 3, YOffset = 0, YPosition = 0,
      HighPerformanceRendering = hpr, lines = []\<rparr>"


section \<open>Signed 64-bit arithmetic\<close>

lemma int_lt_2p63: "n < 2 ^ 63 \<Longrightarrow> int n < 2 ^ 63"
  by (metis of_nat_less_iff of_nat_numeral of_nat_power)

lemma sint_len: "length xs < 2 ^ 63 \<Longrightarrow> sint (len xs) = int (length xs)"
proof -
  assume "length xs < 2 ^ 63"
  then have "int (length xs) < 2 ^ 63" by (rule int_lt_2p63)
  then show ?thesis
    by (simp add: len_def signed_of_nat signed_take_bit_int_eq_self)
qed

lemma sint_add64:
  "- (2 ^ 63) \<le> sint a + sint b \<Longrightarrow> sint a + sint b < 2 ^ 63
   \<Longrightarrow> sint (a + b :: go_int) = sint a + sint b"
  by (simp add: sint_word_add signed_take_bit_int_eq_self)

lemma sint_sub64:
  "- (2 ^ 63) \<le> sint a - sint b \<Longrightarrow> sint a - sint b < 2 ^ 63
   \<Longrightarrow> sint (a - b :: go_int) = sint a - sint b"
  by (simp add: sint_word_diff signed_take_bit_int_eq_self)

lemma sint_range64: "- (2 ^ 63) \<le> sint (a :: go_int) \<and> sint a < 2 ^ 63"
  using sint_ge [of a] sint_lt [of a] by simp

lemma sint_succ:
  "sint (a::go_int) < int n \<Longrightarrow> n < 2 ^ 63 \<Longrightarrow> sint (a + 1) = sint a + 1"
proof -
  assume a: "sint a < int n" and n: "n < 2 ^ 63"
  from n have "int n < 2 ^ 63" by (rule int_lt_2p63)
  with a have "sint a + sint (1::go_int) < 2 ^ 63" by simp
  moreover have "- (2 ^ 63) \<le> sint a + sint (1::go_int)" using sint_range64 [of a] by simp
  ultimately have "sint (a + 1) = sint a + sint (1::go_int)" by (rule sint_add64 [rotated])
  then show ?thesis by simp
qed

lemma sint_pred:
  "- (2 ^ 63) < sint (a::go_int) \<Longrightarrow> sint (a - 1) = sint a - 1"
proof -
  assume a: "- (2 ^ 63) < sint a"
  then have "- (2 ^ 63) \<le> sint a - sint (1::go_int)" by simp
  moreover have "sint a - sint (1::go_int) < 2 ^ 63" using sint_range64 [of a] by simp
  ultimately have "sint (a - 1) = sint a - sint (1::go_int)" by (rule sint_sub64)
  then show ?thesis by simp
qed

lemma unat_sint: "0 \<le> sint (a::go_int) \<Longrightarrow> unat a = nat (sint a)"
proof -
  assume nonneg: "0 \<le> sint a"
  have "sint a < 2 ^ 64" using sint_range64 [of a] by simp
  with nonneg have "take_bit 64 (sint a) = sint a" by (simp add: take_bit_int_eq_self)
  then have "uint a = sint a" by (simp add: uint_sint)
  then show ?thesis by (simp add: unat_eq_nat_uint)
qed

subsection \<open>Slices and indices within their bounds\<close>

lemma slice_ok:
  "length s < 2 ^ 63 \<Longrightarrow> 0 \<le> sint lo \<Longrightarrow> sint lo \<le> sint hi \<Longrightarrow> sint hi \<le> int (length s)
   \<Longrightarrow> slice s lo hi = Inr (take (nat (sint hi) - nat (sint lo)) (drop (nat (sint lo)) s))"
  by (simp add: slice_def word_sle_eq sint_len unat_sint)

lemma slice_to_ok:
  "length s < 2 ^ 63 \<Longrightarrow> 0 \<le> sint hi \<Longrightarrow> sint hi \<le> int (length s)
   \<Longrightarrow> slice_to s hi = Inr (take (nat (sint hi)) s)"
  by (simp add: slice_to_def slice_ok)

lemma slice_from_ok:
  "length s < 2 ^ 63 \<Longrightarrow> 0 \<le> sint lo \<Longrightarrow> sint lo \<le> int (length s)
   \<Longrightarrow> slice_from s lo = Inr (drop (nat (sint lo)) s)"
  by (simp add: slice_from_def slice_ok sint_len)

lemma index_ok:
  "length s < 2 ^ 63 \<Longrightarrow> 0 \<le> sint i \<Longrightarrow> sint i < int (length s)
   \<Longrightarrow> index s i = Inr (s ! nat (sint i))"
  by (simp add: index_def word_sle_eq word_sless_alt sint_len unat_sint)


section \<open>The text field: editing at the boundaries\<close>

subsection \<open>Deleting before the caret\<close>

lemma delete_before_empty: "Value m = [] \<Longrightarrow> delete_before m = Inr m"
  by (simp add: delete_before_def len_def)

lemma delete_before_at_0:
  assumes "Value m \<noteq> []" and "length (Value m) < 2 ^ 63" and "sint (pos m) = 0"
  shows "delete_before m = Inl SliceBoundsOutOfRange"
proof -
  from assms(3) have "sint (pos m - 1) = - 1" by (simp add: sint_pred)
  then have "slice_to (Value m) (pos m - 1) = Inl SliceBoundsOutOfRange"
    by (simp add: slice_to_def slice_def word_sle_eq)
  with assms(1,2) show ?thesis
    by (simp add: delete_before_def bind_panic_def word_sless_alt sint_len)
qed

lemma delete_before_inside:
  assumes "caret_ok m" and "length (Value m) < 2 ^ 63" and "0 < sint (pos m)"
  shows "delete_before m =
     Inr (m\<lparr>Value := take (nat (sint (pos m)) - 1) (Value m) @ drop (nat (sint (pos m))) (Value m),
            pos := pos m - 1\<rparr>)"
proof -
  from assms(3) have p: "sint (pos m - 1) = sint (pos m) - 1" by (simp add: sint_pred)
  from assms have "Value m \<noteq> []" by (auto simp add: caret_ok_def)
  with assms p show ?thesis
    by (simp add: delete_before_def bind_panic_def word_sless_alt sint_len caret_ok_def
        slice_to_ok slice_from_ok nat_diff_distrib)
qed

lemma delete_before_panics_iff:
  assumes "caret_ok m" and "length (Value m) < 2 ^ 63"
  shows "(\<exists>e. delete_before m = Inl e) \<longleftrightarrow> sint (pos m) = 0 \<and> Value m \<noteq> []"
proof (cases "Value m = []")
  case True
  then show ?thesis by (simp add: delete_before_empty)
next
  case False
  show ?thesis
  proof (cases "sint (pos m) = 0")
    case True
    with False assms show ?thesis by (simp add: delete_before_at_0)
  next
    case nz: False
    with assms have "0 < sint (pos m)" by (simp add: caret_ok_def)
    with assms nz show ?thesis by (simp add: delete_before_inside)
  qed
qed

lemma delete_before_caret_ok:
  assumes ok: "caret_ok m" and bound: "length (Value m) < 2 ^ 63"
    and d: "delete_before m = Inr m'"
  shows "caret_ok m'"
proof (cases "Value m = []")
  case True
  with d ok show ?thesis by (simp add: delete_before_empty)
next
  case False
  have "sint (pos m) \<noteq> 0"
  proof
    assume "sint (pos m) = 0"
    with False bound have "delete_before m = Inl SliceBoundsOutOfRange"
      by (rule delete_before_at_0)
    with d show False by simp
  qed
  with ok have "0 < sint (pos m)" by (simp add: caret_ok_def)
  with d ok bound show ?thesis
    by (auto simp add: delete_before_inside caret_ok_def sint_pred)
qed

subsection \<open>Backspace at the start of the value\<close>

text \<open>
  C1. Backspace with the caret at 0 and a non-empty value (value \<open>ab\<close>, caret 0) is
  claimed to return the state unchanged. The guard of the \<open>KeyDelete\<close> body tests
  \<open>len(m.Value) > 0\<close>, not \<open>m.pos > 0\<close>, so the body evaluates \<open>m.Value[:m.pos-1]\<close> with
  the upper bound \<open>-1\<close>: the update panics and returns no state.
\<close>

theorem backspace_at_caret_0_panics:
  "input_Update (KeyMsg KeyBackspace []) field_ab = Inl SliceBoundsOutOfRange"
  by (simp add: delete_before_def slice_to_def slice_def len_def bind_panic_def
      word_sle_eq word_sless_alt)

subsection \<open>Where update and render return\<close>

text \<open>
  On a state that satisfies the caret invariant, \<open>View\<close> always returns, and \<open>Update\<close>
  returns on every message but one: backspace or delete with the caret at 0 and a
  non-empty value.
\<close>

lemma input_View_total:
  assumes "caret_ok m" and "length (Value m) < 2 ^ 63"
  shows "\<exists>v. input_View Invert (InputModel m) = Inr v"
proof (cases "sint (pos m) < int (length (Value m))")
  case True
  with assms have "sint (pos m + 1) = sint (pos m) + 1" by (simp add: sint_succ)
  with True assms show ?thesis
    by (simp add: input_View_def caret_ok_def slice_to_ok slice_from_ok index_ok
        bind_panic_def word_sless_alt sint_len)
next
  case False
  with assms show ?thesis
    by (simp add: input_View_def caret_ok_def slice_to_ok bind_panic_def word_sless_alt sint_len)
qed

lemma input_Update_panics_iff:
  assumes "caret_ok m" and "length (Value m) < 2 ^ 63"
  shows "(\<exists>e. input_Update msg m = Inl e) \<longleftrightarrow>
         (\<exists>str. msg = KeyMsg KeyBackspace str \<or> msg = KeyMsg KeyDelete str)
         \<and> sint (pos m) = 0 \<and> Value m \<noteq> []"
proof (cases msg)
  case (KeyMsg t str)
  show ?thesis
  proof (cases t)
    case KeyBackspace
    with KeyMsg assms show ?thesis by (simp add: delete_before_panics_iff)
  next
    case KeyDelete
    with KeyMsg assms show ?thesis by (simp add: delete_before_panics_iff)
  next
    case KeyCtrlD
    show ?thesis
    proof (cases "sint (pos m) < int (length (Value m))")
      case True
      with assms have "sint (pos m + 1) = sint (pos m) + 1" by (simp add: sint_succ)
      with True assms KeyMsg KeyCtrlD show ?thesis
        by (simp add: caret_ok_def slice_to_ok slice_from_ok bind_panic_def)
    next
      case False
      with assms KeyMsg KeyCtrlD show ?thesis by (simp add: word_sless_alt sint_len)
    qed
  next
    case KeyCtrlK
    with KeyMsg assms show ?thesis by (simp add: caret_ok_def slice_to_ok bind_panic_def)
  next
    case KeyRune
    with KeyMsg assms show ?thesis
      by (simp add: caret_ok_def slice_to_ok slice_from_ok bind_panic_def)
  qed (use KeyMsg in simp_all)
qed simp_all

text \<open>
  C2. Update and render are claimed to be total on every state with
  \<open>0 \<le> caret \<le> len(value)\<close>, each boundary case being a no-op. The state with value
  \<open>ab\<close> and caret 0 satisfies the invariant, and the delete event makes \<open>Update\<close> panic on
  it: the same missing test of \<open>m.pos > 0\<close> as for backspace.
\<close>

theorem delete_at_caret_0_not_total:
  "caret_ok field_ab \<and> input_Update (KeyMsg KeyDelete []) field_ab = Inl SliceBoundsOutOfRange"
  by (simp add: caret_ok_def delete_before_def slice_to_def slice_def len_def bind_panic_def
      word_sle_eq word_sless_alt)

subsection \<open>The caret invariant\<close>

text \<open>
  C3. Every update is claimed to keep \<open>0 \<le> caret \<le> len(value)\<close>, move-to-end on an
  empty value included. \<open>KeyCtrlE\<close> assigns \<open>len(m.Value) - 1\<close>: on the empty value of
  \<open>DefaultModel\<close> the caret becomes \<open>-1\<close>.
\<close>

theorem move_to_end_on_empty_breaks_caret_ok:
  "caret_ok DefaultModel
   \<and> input_Update (KeyMsg KeyCtrlE []) DefaultModel = Inr (DefaultModel\<lparr>pos := - 1\<rparr>)
   \<and> \<not> caret_ok (DefaultModel\<lparr>pos := - 1\<rparr>)"
  by (simp add: caret_ok_def DefaultModel_def len_def)

text \<open>
  Every other update that returns keeps the invariant, a rune key carrying the
  non-empty encoding of its rune.
\<close>

lemma input_Update_caret_ok:
  assumes ok: "caret_ok m" and bound: "length (Value m) < 2 ^ 63"
    and upd: "input_Update msg m = Inr m'"
    and rune: "\<And>str. msg = KeyMsg KeyRune str
                 \<Longrightarrow> str \<noteq> [] \<and> length (Value m) + length str < 2 ^ 63"
    and ctrl_e: "\<And>str. msg = KeyMsg KeyCtrlE str \<Longrightarrow> Value m \<noteq> []"
  shows "caret_ok m'"
proof (cases msg)
  case (KeyMsg t str)
  show ?thesis
  proof (cases t)
    case KeyBackspace
    with KeyMsg upd ok bound show ?thesis by (simp add: delete_before_caret_ok)
  next
    case KeyDelete
    with KeyMsg upd ok bound show ?thesis by (simp add: delete_before_caret_ok)
  next
    case KeyLeft
    with KeyMsg upd ok show ?thesis
      by (auto simp add: caret_ok_def word_sless_alt sint_pred)
  next
    case KeyRight
    with KeyMsg upd ok bound show ?thesis
      by (auto simp add: caret_ok_def word_sless_alt sint_len sint_succ)
  next
    case KeyCtrlA
    with KeyMsg upd show ?thesis by (auto simp add: caret_ok_def)
  next
    case KeyCtrlD
    show ?thesis
    proof (cases "sint (pos m) < int (length (Value m))")
      case True
      with ok bound have "sint (pos m + 1) = sint (pos m) + 1" by (simp add: sint_succ)
      moreover from True ok have "Value m \<noteq> []" by (auto simp add: caret_ok_def)
      ultimately show ?thesis using True ok bound KeyMsg KeyCtrlD upd
        by (auto simp add: caret_ok_def slice_to_ok slice_from_ok bind_panic_def
            word_sless_alt sint_len)
    next
      case False
      with ok bound KeyMsg KeyCtrlD upd show ?thesis by (auto simp add: word_sless_alt sint_len)
    qed
  next
    case KeyCtrlE
    with KeyMsg ctrl_e have ne: "Value m \<noteq> []" by simp
    from bound have "sint (len (Value m)) = int (length (Value m))" by (rule sint_len)
    with ne have "sint (len (Value m) - 1) = int (length (Value m)) - 1"
      by (simp add: sint_pred)
    with ne KeyMsg KeyCtrlE upd show ?thesis by (auto simp add: caret_ok_def)
  next
    case KeyCtrlK
    with KeyMsg upd ok bound show ?thesis
      by (auto simp add: caret_ok_def slice_to_ok bind_panic_def sint_len)
  next
    case KeyRune
    with KeyMsg rune have s: "str \<noteq> []" and l: "length (Value m) + length str < 2 ^ 63"
      by simp_all
    from s have longer: "0 < int (length str)" by simp
    with ok have "sint (pos m) < int (length (Value m) + length str)"
      unfolding caret_ok_def by linarith
    then have "sint (pos m + 1) = sint (pos m) + 1" using l by (rule sint_succ)
    with KeyMsg KeyRune upd ok bound
    have p: "sint (pos m') = sint (pos m) + 1"
      and v: "int (length (Value m')) = int (length (Value m)) + int (length str)"
      by (auto simp add: caret_ok_def slice_to_ok slice_from_ok bind_panic_def)
    from ok longer show ?thesis
      unfolding caret_ok_def p v by linarith
  next
    case KeyOther
    with KeyMsg upd ok show ?thesis by simp
  qed
next
  case CursorBlinkMsg
  with upd ok show ?thesis by (auto simp add: caret_ok_def)
next
  case OtherMsg
  with upd ok show ?thesis by simp
qed

subsection \<open>Move to end\<close>

text \<open>
  C9. On every state, the move-to-end event returns a state whose caret is
  \<open>len(value) - 1\<close>, one short of the end of a non-empty value, and whose value is the
  one it was given.
\<close>

theorem move_to_end_caret:
  assumes "length (Value m) < 2 ^ 63"
  shows "\<exists>m'. input_Update (KeyMsg KeyCtrlE str) m = Inr m'
             \<and> sint (pos m') = int (length (Value m)) - 1 \<and> Value m' = Value m"
proof -
  from assms have "sint (len (Value m)) = int (length (Value m))" by (rule sint_len)
  moreover have "- (2 ^ 63) < sint (len (Value m))"
    unfolding calculation by simp
  ultimately have "sint (len (Value m) - 1) = int (length (Value m)) - 1"
    by (simp add: sint_pred)
  then show ?thesis by simp
qed

theorem move_to_end_caret_witness:
  "length (Value field_abc) < 2 ^ 63
   \<and> (\<exists>m'. input_Update (KeyMsg KeyCtrlE []) field_abc = Inr m'
            \<and> sint (pos m') = 2 \<and> Value m' = ''abc'')"
  using move_to_end_caret [of field_abc "[]"] by simp

section \<open>The scroll view: geometry and paging\<close>

subsection \<open>Setting the size\<close>

text \<open>
  C4. After \<open>SetSize(yPos, width, height)\<close> the model is claimed to hold the given
  position, width and height. \<open>SetSize\<close> has a value receiver, unlike \<open>SetContent\<close> and
  the paging methods beside it: it assigns to its own copy of the model. After
  \<open>NewModel(80, 24)\<close> and \<open>SetSize(5, 100, 40)\<close> the model still has width 80, height 24
  and position 0.
\<close>

theorem SetSize_leaves_geometry:
  "Width (SetSize (NewModel 80 24) 5 100 40) = 80
   \<and> Height (SetSize (NewModel 80 24) 5 100 40) = 24
   \<and> YPosition (SetSize (NewModel 80 24) 5 100 40) = 0"
  by (simp add: SetSize_def NewModel_def)

lemma SetSize_no_effect: "SetSize m yPos width height = m"
  by (simp add: SetSize_def)

subsection \<open>The paging arithmetic over the integers\<close>

lemma sint_min_go: "sint (min_go a b) = min (sint a) (sint b)"
  by (simp add: min_go_def word_sless_alt min_def)

lemma sint_max_go: "sint (max_go a b) = max (sint a) (sint b)"
  by (simp add: max_go_def word_sless_alt max_def)

lemma sint_scroll_range:
  assumes "length (lines m) < 2 ^ 63" and "0 \<le> sint (Height m)"
  shows "sint (len (lines m) - Height m) = int (length (lines m)) - sint (Height m)"
    and "sint (len (lines m) - Height m - 1) = int (length (lines m)) - sint (Height m) - 1"
proof -
  have l: "sint (len (lines m)) = int (length (lines m))" using assms(1) by (rule sint_len)
  have r: "sint (Height m) < 2 ^ 63" using sint_range64 [of "Height m"] by simp
  from assms(1) have b: "int (length (lines m)) < 2 ^ 63" by (rule int_lt_2p63)
  show d: "sint (len (lines m) - Height m) = int (length (lines m)) - sint (Height m)"
    using assms(2) r b l by (simp add: sint_sub64)
  have "- (2 ^ 63) < sint (len (lines m) - Height m)"
    using assms(2) r b unfolding d by simp
  then show "sint (len (lines m) - Height m - 1) = int (length (lines m)) - sint (Height m) - 1"
    unfolding d [symmetric] by (rule sint_pred)
qed

lemma AtBottom_int:
  assumes "length (lines m) < 2 ^ 63" and "0 \<le> sint (Height m)"
  shows "AtBottom m \<longleftrightarrow> int (length (lines m)) - sint (Height m) - 1 \<le> sint (YOffset m)"
  using assms by (simp add: AtBottom_def word_sle_eq sint_scroll_range)

lemma AtTop_int: "AtTop m \<longleftrightarrow> sint (YOffset m) \<le> 0"
  by (simp add: AtTop_def word_sle_eq)

lemma ViewDown_moves:
  assumes bound: "length (lines m) < 2 ^ 63" and h: "0 \<le> sint (Height m)"
    and y: "0 \<le> sint (YOffset m)" and nb: "\<not> AtBottom m"
  shows "sint (YOffset (ViewDown m)) =
         min (sint (YOffset m) + sint (Height m)) (int (length (lines m)) - sint (Height m))"
proof -
  from nb bound h have lt: "sint (YOffset m) < int (length (lines m)) - sint (Height m) - 1"
    by (simp add: AtBottom_int)
  from bound have b: "int (length (lines m)) < 2 ^ 63" by (rule int_lt_2p63)
  have "sint (YOffset m + Height m) = sint (YOffset m) + sint (Height m)"
  proof (rule sint_add64)
    show "- (2 ^ 63) \<le> sint (YOffset m) + sint (Height m)" using h y by simp
    show "sint (YOffset m) + sint (Height m) < 2 ^ 63" using lt b h by simp
  qed
  with nb bound h show ?thesis
    by (simp add: ViewDown_def sint_min_go sint_scroll_range)
qed

lemma ViewUp_moves:
  assumes nt: "\<not> AtTop m" and h: "0 \<le> sint (Height m)"
  shows "sint (YOffset (ViewUp m)) = max (sint (YOffset m) - sint (Height m)) 0"
proof -
  from nt have y: "0 < sint (YOffset m)" by (simp add: AtTop_int)
  have "sint (YOffset m - Height m) = sint (YOffset m) - sint (Height m)"
  proof (rule sint_sub64)
    show "- (2 ^ 63) \<le> sint (YOffset m) - sint (Height m)"
      using y sint_range64 [of "Height m"] by simp
    show "sint (YOffset m) - sint (Height m) < 2 ^ 63"
      using h sint_range64 [of "YOffset m"] by simp
  qed
  with nt show ?thesis by (simp add: ViewUp_def sint_max_go)
qed

subsection \<open>Page down\<close>

text \<open>
  C5, as amended. For every scroll view whose height is not negative and whose offset
  satisfies \<open>0 \<le> offset \<le> max(0, len(lines) - height)\<close>, after \<open>ViewDown\<close> the offset is at
  most \<open>max(0, len(lines) - height)\<close> and at least the previous offset; and at the bottom a
  second \<open>ViewDown\<close> leaves the offset where the first left it.
\<close>

theorem ViewDown_offset:
  assumes bound: "length (lines m) < 2 ^ 63" and h: "0 \<le> sint (Height m)"
    and ok: "offset_ok m"
  shows "sint (YOffset (ViewDown m)) \<le> max 0 (int (length (lines m)) - sint (Height m))
       \<and> sint (YOffset m) \<le> sint (YOffset (ViewDown m))
       \<and> (AtBottom m \<longrightarrow> YOffset (ViewDown (ViewDown m)) = YOffset (ViewDown m))"
proof (cases "AtBottom m")
  case True
  then have "ViewDown m = m" by (simp add: ViewDown_def)
  with ok show ?thesis by (simp add: offset_ok_def)
next
  case False
  from ok have y: "0 \<le> sint (YOffset m)" by (simp add: offset_ok_def)
  from False bound h have lt: "sint (YOffset m) < int (length (lines m)) - sint (Height m) - 1"
    by (simp add: AtBottom_int)
  have "sint (YOffset (ViewDown m)) =
        min (sint (YOffset m) + sint (Height m)) (int (length (lines m)) - sint (Height m))"
    using bound h y False by (rule ViewDown_moves)
  with lt h False show ?thesis by simp
qed

text \<open>
  The theorem at two views of height 10 over 25 lines: from the top the offset moves to
  10; at offset 15 the view is at the bottom and stays there.
\<close>

theorem ViewDown_offset_witness:
  "length (lines (page_of 10 0 (replicate 25 ''x''))) < 2 ^ 63
   \<and> 0 \<le> sint (Height (page_of 10 0 (replicate 25 ''x'')))
   \<and> offset_ok (page_of 10 0 (replicate 25 ''x''))
   \<and> sint (YOffset (ViewDown (page_of 10 0 (replicate 25 ''x'')))) \<le> 15
   \<and> 0 \<le> sint (YOffset (ViewDown (page_of 10 0 (replicate 25 ''x''))))
   \<and> offset_ok (page_of 10 15 (replicate 25 ''x''))
   \<and> AtBottom (page_of 10 15 (replicate 25 ''x''))
   \<and> YOffset (ViewDown (ViewDown (page_of 10 15 (replicate 25 ''x''))))
       = YOffset (ViewDown (page_of 10 15 (replicate 25 ''x'')))"
  using ViewDown_offset [of "page_of 10 0 (replicate 25 ''x'')"]
    ViewDown_offset [of "page_of 10 15 (replicate 25 ''x'')"]
  by (simp add: offset_ok_def AtBottom_def len_def word_sle_eq)

text \<open>
  The claim as it was stated fails twice. A view of height 5 over one line satisfies
  the invariant at offset 0 and stays there, above \<open>len(lines) - height = -4\<close>. A view of
  height \<open>-1\<close> over five lines at offset 2 satisfies it too, and \<open>ViewDown\<close> moves it back
  to offset 1.
\<close>

theorem ViewDown_offset_counterexample:
  "offset_ok (page_of 5 0 [''a''])
   \<and> \<not> sint (YOffset (ViewDown (page_of 5 0 [''a''])))
        \<le> int (length (lines (page_of 5 0 [''a'']))) - sint (Height (page_of 5 0 [''a'']))
   \<and> offset_ok (page_of (- 1) 2 [''a'', ''b'', ''c'', ''d'', ''e''])
   \<and> \<not> sint (YOffset (page_of (- 1) 2 [''a'', ''b'', ''c'', ''d'', ''e'']))
        \<le> sint (YOffset (ViewDown (page_of (- 1) 2 [''a'', ''b'', ''c'', ''d'', ''e''])))"
  by (simp add: offset_ok_def ViewDown_def AtBottom_def len_def word_sle_eq word_sless_alt
      min_go_def)

subsection \<open>Page up, then page down\<close>

text \<open>
  C6, as amended. For every scroll view that is neither at the top nor at the bottom,
  whose height is not negative, is at most the offset, and divides the scrollable range
  \<open>len(lines) - height\<close>, \<open>ViewUp\<close> followed by \<open>ViewDown\<close> returns the offset to its
  original value. (The proof makes no use of the divisibility.)
\<close>

theorem ViewUp_ViewDown_round_trip:
  assumes bound: "length (lines m) < 2 ^ 63"
    and nt: "\<not> AtTop m" and nb: "\<not> AtBottom m"
    and divides: "sint (Height m) dvd int (length (lines m)) - sint (Height m)"
    and h: "0 \<le> sint (Height m)" and full_page: "sint (Height m) \<le> sint (YOffset m)"
  shows "YOffset (ViewDown (ViewUp m)) = YOffset m"
proof -
  let ?u = "ViewUp m"
  have geometry: "lines ?u = lines m" "Height ?u = Height m"
    by (simp_all add: ViewUp_def)
  from nb bound h have lt: "sint (YOffset m) < int (length (lines m)) - sint (Height m) - 1"
    by (simp add: AtBottom_int)
  from nt h full_page have up: "sint (YOffset ?u) = sint (YOffset m) - sint (Height m)"
    by (simp add: ViewUp_moves)
  with lt h have "\<not> AtBottom ?u"
    using bound by (simp add: AtBottom_int geometry)
  moreover from up full_page have "0 \<le> sint (YOffset ?u)" by simp
  ultimately have "sint (YOffset (ViewDown ?u)) =
      min (sint (YOffset ?u) + sint (Height ?u)) (int (length (lines ?u)) - sint (Height ?u))"
    using bound h by (simp add: ViewDown_moves geometry)
  with up lt have "sint (YOffset (ViewDown ?u)) = sint (YOffset m)"
    by (simp add: geometry)
  then show ?thesis by (rule signed_word_eqI)
qed

text \<open>The theorem at a view of height 10 over 30 lines at offset 15: up to 5, down to 15.\<close>

theorem ViewUp_ViewDown_round_trip_witness:
  "length (lines (page_of 10 15 (replicate 30 ''x''))) < 2 ^ 63
   \<and> \<not> AtTop (page_of 10 15 (replicate 30 ''x''))
   \<and> \<not> AtBottom (page_of 10 15 (replicate 30 ''x''))
   \<and> sint (Height (page_of 10 15 (replicate 30 ''x'')))
       dvd int (length (lines (page_of 10 15 (replicate 30 ''x''))))
           - sint (Height (page_of 10 15 (replicate 30 ''x'')))
   \<and> 0 \<le> sint (Height (page_of 10 15 (replicate 30 ''x'')))
   \<and> sint (Height (page_of 10 15 (replicate 30 ''x'')))
       \<le> sint (YOffset (page_of 10 15 (replicate 30 ''x'')))
   \<and> YOffset (ViewUp (page_of 10 15 (replicate 30 ''x''))) = 5
   \<and> YOffset (ViewDown (ViewUp (page_of 10 15 (replicate 30 ''x'')))) = 15"
  using ViewUp_ViewDown_round_trip [of "page_of 10 15 (replicate 30 ''x'')"]
  by (simp add: AtTop_def AtBottom_def ViewUp_def max_go_def len_def word_sle_eq word_sless_alt)

text \<open>
  The claim as it was stated fails twice. At offset 5 of a view of height 10 over 30
  lines (10 divides the range 20) \<open>ViewUp\<close> stops at 0 and \<open>ViewDown\<close> then lands on 10.
  At offset 2 of a view of height \<open>-1\<close> over three lines (\<open>-1\<close> divides the range 4)
  \<open>ViewUp\<close> moves to offset 3, where the view is at the bottom and \<open>ViewDown\<close> stays.
\<close>

theorem ViewUp_ViewDown_round_trip_counterexample:
  "\<not> AtTop (page_of 10 5 (replicate 30 ''x''))
   \<and> \<not> AtBottom (page_of 10 5 (replicate 30 ''x''))
   \<and> sint (Height (page_of 10 5 (replicate 30 ''x'')))
       dvd int (length (lines (page_of 10 5 (replicate 30 ''x''))))
           - sint (Height (page_of 10 5 (replicate 30 ''x'')))
   \<and> YOffset (ViewDown (ViewUp (page_of 10 5 (replicate 30 ''x'')))) = 10
   \<and> YOffset (ViewDown (ViewUp (page_of 10 5 (replicate 30 ''x''))))
       \<noteq> YOffset (page_of 10 5 (replicate 30 ''x''))
   \<and> \<not> AtTop (page_of (- 1) 2 [''a'', ''b'', ''c''])
   \<and> \<not> AtBottom (page_of (- 1) 2 [''a'', ''b'', ''c''])
   \<and> sint (Height (page_of (- 1) 2 [''a'', ''b'', ''c'']))
       dvd int (length (lines (page_of (- 1) 2 [''a'', ''b'', ''c''])))
           - sint (Height (page_of (- 1) 2 [''a'', ''b'', ''c'']))
   \<and> sint (Height (page_of (- 1) 2 [''a'', ''b'', ''c'']))
       \<le> sint (YOffset (page_of (- 1) 2 [''a'', ''b'', ''c'']))
   \<and> YOffset (ViewDown (ViewUp (page_of (- 1) 2 [''a'', ''b'', ''c'']))) = 3
   \<and> YOffset (ViewDown (ViewUp (page_of (- 1) 2 [''a'', ''b'', ''c''])))
       \<noteq> YOffset (page_of (- 1) 2 [''a'', ''b'', ''c''])"
  by (simp add: ViewDown_def ViewUp_def AtTop_def AtBottom_def len_def word_sle_eq
      word_sless_alt min_go_def max_go_def)


section \<open>The scroll view: rendering and content\<close>

subsection \<open>Rendering a stored error\<close>

text \<open>
  C7, as amended. Whenever the scroll view holds a stored error and high performance
  rendering is off, \<open>View\<close> returns the message of the stored error.
\<close>

theorem View_shows_stored_error:
  "Err m = Some msg \<Longrightarrow> \<not> HighPerformanceRendering m \<Longrightarrow> viewport_View m = Inr msg"
  by (simp add: viewport_View_def)

theorem View_shows_stored_error_witness:
  "Err (failed_load False) = Some ''boom'' \<and> \<not> HighPerformanceRendering (failed_load False)
   \<and> viewport_View (failed_load False) = Inr ''boom''"
  using View_shows_stored_error [of "failed_load False" "''boom''"] by simp

text \<open>
  With high performance rendering on, \<open>View\<close> returns before it looks at \<open>Err\<close>: for
  height 3 it answers two newlines, not the message.
\<close>

theorem View_shows_stored_error_counterexample:
  "Err (failed_load True) = Some ''boom''
   \<and> viewport_View (failed_load True) = Inr [LF, LF]
   \<and> viewport_View (failed_load True) \<noteq> Inr ''boom''"
proof -
  have "replicate 2 [LF] = [[LF], [LF]]" by (simp add: numeral_2_eq_2)
  then show ?thesis
    by (simp add: viewport_View_def strings_Repeat_def word_sless_alt)
qed

subsection \<open>Replacing and splitting, one byte at a time\<close>

text \<open>
  How \<open>strings.Replace\<close> and \<open>strings.Split\<close> proceed over the first byte of their
  argument: at an instance of the pattern, and elsewhere.
\<close>

lemma strings_Replace_Nil: "strings_Replace [] old new = []"
  by (simp add: strings_Replace.simps [of "[]"] split: option.splits)

lemma strings_Replace_here:
  assumes "old \<noteq> []" and "take (length old) s = old"
  shows "strings_Replace s old new = new @ strings_Replace (drop (length old) s) old new"
proof -
  from assms have "strings_Index s old = Some 0" by (cases s) auto
  with assms(1) show ?thesis by (simp add: strings_Replace.simps [of s])
qed

lemma strings_Replace_later:
  assumes "old \<noteq> []" and "take (length old) (c # cs) \<noteq> old"
  shows "strings_Replace (c # cs) old new = c # strings_Replace cs old new"
proof (cases "strings_Index cs old")
  case None
  with assms show ?thesis
    by (simp add: strings_Replace.simps [of "c # cs"] strings_Replace.simps [of cs])
next
  case (Some j)
  with assms show ?thesis
    by (simp add: strings_Replace.simps [of "c # cs"] strings_Replace.simps [of cs])
qed

lemma strings_Split_not_Nil: "strings_Split s sep \<noteq> []"
  by (simp add: strings_Split.simps [of s] split: option.splits)

lemma strings_Split_Nil: "sep \<noteq> [] \<Longrightarrow> strings_Split [] sep = [[]]"
  by (simp add: strings_Split.simps [of "[]"])

lemma strings_Split_here:
  assumes "sep \<noteq> []" and "take (length sep) s = sep"
  shows "strings_Split s sep = [] # strings_Split (drop (length sep) s) sep"
proof -
  from assms have "strings_Index s sep = Some 0" by (cases s) auto
  with assms(1) show ?thesis by (simp add: strings_Split.simps [of s])
qed

lemma strings_Split_later:
  assumes "sep \<noteq> []" and "take (length sep) (c # cs) \<noteq> sep"
  shows "strings_Split (c # cs) sep =
         (c # hd (strings_Split cs sep)) # tl (strings_Split cs sep)"
proof (cases "strings_Index cs sep")
  case None
  with assms show ?thesis
    by (simp add: strings_Split.simps [of "c # cs"] strings_Split.simps [of cs])
next
  case (Some j)
  with assms show ?thesis
    by (simp add: strings_Split.simps [of "c # cs"] strings_Split.simps [of cs])
qed

subsection \<open>The library calls against the wording of the specification\<close>

lemma strings_Replace_crlf: "strings_Replace s [CR, LF] [LF] = crlf_to_lf s"
proof (induction s rule: crlf_to_lf.induct)
  case (1 c d cs)
  show ?case
  proof (cases "c = CR \<and> d = LF")
    case True
    with 1 show ?thesis by (simp add: strings_Replace_here)
  next
    case False
    then have "take (length [CR, LF]) (c # d # cs) \<noteq> [CR, LF]" by auto
    then have "strings_Replace (c # d # cs) [CR, LF] [LF]
               = c # strings_Replace (d # cs) [CR, LF] [LF]"
      by (intro strings_Replace_later) simp_all
    with False 1 show ?thesis by auto
  qed
qed (simp_all add: strings_Replace_Nil strings_Replace_later)

lemma split_lines_from_Split:
  "split_lines_from cur s = (cur @ hd (strings_Split s [LF])) # tl (strings_Split s [LF])"
proof (induction s arbitrary: cur)
  case Nil
  show ?case by (simp add: strings_Split_Nil)
next
  case (Cons c cs)
  show ?case
  proof (cases "c = LF")
    case True
    then have "strings_Split (c # cs) [LF] = [] # strings_Split cs [LF]"
      using strings_Split_here [of "[LF]" "c # cs"] by simp
    with True Cons.IH [of "[]"] show ?thesis
      by (simp add: strings_Split_not_Nil)
  next
    case False
    then have "strings_Split (c # cs) [LF] =
               (c # hd (strings_Split cs [LF])) # tl (strings_Split cs [LF])"
      using strings_Split_later [of "[LF]" c cs] by simp
    with False Cons.IH [of "cur @ [c]"] show ?thesis by simp
  qed
qed

lemma strings_Split_lines: "strings_Split s [LF] = split_lines s"
  using split_lines_from_Split [of "[]" s]
  by (simp add: split_lines_def strings_Split_not_Nil)

text \<open>
  What the two functions of the specification's wording do: the lines hold no newline
  and, joined by newlines, give the text back; normalising removes carriage returns
  only, and none from a text without any.
\<close>

lemma split_lines_from_not_Nil: "split_lines_from cur s \<noteq> []"
  by (induction s arbitrary: cur) simp_all

lemma strings_Join_Cons:
  "ls \<noteq> [] \<Longrightarrow> strings_Join (l # ls) sep = l @ sep @ strings_Join ls sep"
  by (cases ls) simp_all

lemma strings_Join_split_lines_from: "strings_Join (split_lines_from cur s) [LF] = cur @ s"
proof (induction s arbitrary: cur)
  case Nil
  show ?case by simp
next
  case (Cons c cs)
  show ?case
  proof (cases "c = LF")
    case True
    with Cons.IH [of "[]"] show ?thesis
      by (simp add: strings_Join_Cons split_lines_from_not_Nil)
  next
    case False
    with Cons.IH [of "cur @ [c]"] show ?thesis by simp
  qed
qed

lemma strings_Join_split_lines: "strings_Join (split_lines s) [LF] = s"
  by (simp add: split_lines_def strings_Join_split_lines_from)

lemma split_lines_from_no_LF:
  "LF \<notin> set cur \<Longrightarrow> \<forall>l \<in> set (split_lines_from cur s). LF \<notin> set l"
proof (induction s arbitrary: cur)
  case Nil
  then show ?case by simp
next
  case (Cons c cs)
  show ?case
  proof (cases "c = LF")
    case True
    with Cons.prems Cons.IH [of "[]"] show ?thesis by simp
  next
    case False
    with Cons.prems Cons.IH [of "cur @ [c]"] show ?thesis by simp
  qed
qed

lemma split_lines_no_LF: "\<forall>l \<in> set (split_lines s). LF \<notin> set l"
  unfolding split_lines_def by (rule split_lines_from_no_LF) simp

lemma crlf_to_lf_without_CR: "CR \<notin> set s \<Longrightarrow> crlf_to_lf s = s"
  by (induction s rule: crlf_to_lf.induct) auto

lemma crlf_to_lf_removes_CR_only:
  "filter (\<lambda>c. c \<noteq> CR) (crlf_to_lf s) = filter (\<lambda>c. c \<noteq> CR) s"
  by (induction s rule: crlf_to_lf.induct) auto

subsection \<open>Setting the content\<close>

text \<open>
  C8. For every input string, \<open>SetContent\<close> replaces the lines with the string split at
  its newlines after CRLF has been normalised to LF, and leaves the offset as it was;
  the text \<open>a CR LF b CR LF c\<close> becomes the three lines \<open>a\<close>, \<open>b\<close>, \<open>c\<close>.
\<close>

theorem SetContent_lines:
  "lines (SetContent m s) = split_lines (crlf_to_lf s)
   \<and> YOffset (SetContent m s) = YOffset m
   \<and> lines (SetContent m (''a'' @ [CR, LF] @ ''b'' @ [CR, LF] @ ''c'')) = [''a'', ''b'', ''c'']"
  by (simp add: SetContent_def strings_Replace_crlf strings_Split_lines split_lines_def)

text \<open>
  C10. For every input string, the line list after \<open>SetContent\<close> has at least one
  element; the empty string gives a single empty line.
\<close>

theorem SetContent_at_least_one_line:
  "lines (SetContent m s) \<noteq> [] \<and> lines (SetContent m []) = [[]]"
  by (simp add: SetContent_def strings_Split_not_Nil strings_Replace_Nil strings_Split_Nil)


end
